theory Spec2Isabelle
  imports Main
begin

section \<open>Message protocol\<close>

text \<open>
  The four dataclasses of the notebook's first cell. \<open>Reset\<close> has no fields, so its
  handler takes no message argument in the model.
\<close>

record TextMessage =
  content :: string
  source :: string

record UploadForCodeInterpreter =
  file_path :: string

record UploadForFileSearch =
  file_path :: string
  vector_store_id :: string

section \<open>Values exchanged with the vendor client\<close>

type_synonym bytes = string

text \<open>
  Every exception a handler can end with. \<open>CancelledError\<close> and \<open>APIError\<close> come out
  of an awaited future; the others are raised by the handler's own statements.
\<close>

datatype error =
    CancelledError
  | APIError string
  | AssertionError
  | ValueError
  | IndexError
  | AttributeError
  | FileNotFoundError

text \<open>The content parts of a thread message, told apart by their \<open>type\<close> field.\<close>

datatype MessageContent =
    TextContentBlock string
  | ImageFileContentBlock string
  | ImageURLContentBlock string
  | RefusalContentBlock string

fun content_type :: "MessageContent \<Rightarrow> string" where
  "content_type (TextContentBlock _) = ''text''"
| "content_type (ImageFileContentBlock _) = ''image_file''"
| "content_type (ImageURLContentBlock _) = ''image_url''"
| "content_type (RefusalContentBlock _) = ''refusal''"

record Message =
  message_id :: string
  message_content :: "MessageContent list"

text \<open>
  A page of a list call. \<open>has_next_page\<close> is what the page's method of that name
  answers; the handler only reads it.
\<close>

record MessagePage =
  data :: "Message list"
  has_next_page :: bool

record MessageDeleted =
  deleted :: bool

record FileObject =
  file_id :: string

record ToolResourcesCodeInterpreter =
  file_ids :: "string list option"

record ToolResources =
  code_interpreter :: "ToolResourcesCodeInterpreter option"
  file_search :: "string list option"

record Thread =
  tool_resources :: "ToolResources option"

text \<open>\<open>ToolResources()\<close>: every field left at its default \<open>None\<close>.\<close>

definition ToolResources_default :: ToolResources where
  "ToolResources_default = \<lparr>code_interpreter = None, file_search = None\<rparr>"

section \<open>The client and the calls issued on it\<close>

text \<open>
  The vendor client is an external object. It is a parameter of every handler: a record
  with one operation per client method the handlers use, each taking the call's
  arguments and the remote state \<open>'v\<close>, and giving the outcome of the awaited future
  (a response, or the exception it ends with) and the remote state afterwards.
\<close>

record 'v AsyncClient =
  messages_create :: "string \<Rightarrow> string \<Rightarrow> string \<Rightarrow> string \<Rightarrow> 'v \<Rightarrow> (error + unit) \<times> 'v"
  runs_stream :: "string \<Rightarrow> string \<Rightarrow> 'v \<Rightarrow> (error + unit) \<times> 'v"
  messages_list :: "string \<Rightarrow> string option \<Rightarrow> nat option \<Rightarrow> string option \<Rightarrow> 'v \<Rightarrow> (error + MessagePage) \<times> 'v"
  messages_delete :: "string \<Rightarrow> string \<Rightarrow> 'v \<Rightarrow> (error + MessageDeleted) \<times> 'v"
  files_create :: "string \<Rightarrow> bytes \<Rightarrow> string \<Rightarrow> 'v \<Rightarrow> (error + FileObject) \<times> 'v"
  threads_retrieve :: "string \<Rightarrow> 'v \<Rightarrow> (error + Thread) \<times> 'v"
  threads_update :: "string \<Rightarrow> string list \<Rightarrow> 'v \<Rightarrow> (error + unit) \<times> 'v"
  upload_and_poll :: "string \<Rightarrow> (string \<times> bytes) list \<Rightarrow> 'v \<Rightarrow> (error + unit) \<times> 'v"

text \<open>One entry of the log of remote calls, with the arguments the handler passed.\<close>

datatype call =
    MessagesCreate string string string string
  | RunsStream string string
  | MessagesList string "string option" "nat option" "string option"
  | MessagesDelete string string
  | FilesCreate string bytes string
  | ThreadsRetrieve string
  | ThreadsUpdate string "string list"
  | UploadAndPoll string "(string \<times> bytes) list"

text \<open>
  A handler runs on the remote state paired with the log of the calls issued so far,
  and ends with an exception (\<open>Inl\<close>) or a value (\<open>Inr\<close>).
\<close>

type_synonym 'v world = "'v \<times> call list"

type_synonym ('v, 'a) handler = "'v world \<Rightarrow> (error + 'a) \<times> 'v world"

definition return :: "'a \<Rightarrow> ('v, 'a) handler" where
  "return x s = (Inr x, s)"

definition raise :: "error \<Rightarrow> ('v, 'a) handler" where
  "raise e s = (Inl e, s)"

text \<open>\<open>x = await m; k x\<close>: an exception out of \<open>m\<close> ends the handler there.\<close>

definition await :: "('v, 'a) handler \<Rightarrow> ('a \<Rightarrow> ('v, 'b) handler) \<Rightarrow> ('v, 'b) handler" where
  "await m k s = (case m s of (Inl e, s') \<Rightarrow> (Inl e, s') | (Inr x, s') \<Rightarrow> k x s')"

text \<open>
  \<open>ctx.cancellation_token.link_future(asyncio.ensure_future(...))\<close>: the call is issued
  (logged), and its future's outcome is what the client operation gives.
\<close>

definition link_future :: "call \<Rightarrow> ('v \<Rightarrow> (error + 'r) \<times> 'v) \<Rightarrow> ('v, 'r) handler" where
  "link_future c fut s = (case s of (v, log) \<Rightarrow> (case fut v of (r, v') \<Rightarrow> (r, (v', log @ [c]))))"

section \<open>The agent\<close>

text \<open>
  The constructor's arguments the handlers read, and \<open>agent_type\<close> for
  \<open>self.metadata["type"]\<close>, the type the agent is registered under.
\<close>

record OpenAIAssistantAgent =
  description :: string
  assistant_id :: string
  thread_id :: string
  agent_type :: string

subsection \<open>handle_message\<close>

text \<open>
  The run is one awaited step, \<open>stream.until_done()\<close> inside the stream's context
  manager; the event handler it feeds only prints, and is left out. The context manager
  itself is entered by \<open>async with\<close>, outside any \<open>link_future\<close>; the model folds
  that entry into the run step. \<open>messages.data[0]\<close> on an empty page and \<open>.text\<close> on
  a part that is not a text block are the errors Python raises there.
\<close>

definition handle_message ::
  "'v AsyncClient \<Rightarrow> OpenAIAssistantAgent \<Rightarrow> TextMessage \<Rightarrow> ('v, TextMessage) handler" where
  "handle_message client self message =
     await (link_future
              (MessagesCreate (thread_id self) (content message) ''user'' (source message))
              (messages_create client (thread_id self) (content message) ''user'' (source message)))
       (\<lambda>_.
     await (link_future
              (RunsStream (thread_id self) (assistant_id self))
              (runs_stream client (thread_id self) (assistant_id self)))
       (\<lambda>_.
     await (link_future
              (MessagesList (thread_id self) (Some ''desc'') (Some 1) None)
              (messages_list client (thread_id self) (Some ''desc'') (Some 1) None))
       (\<lambda>messages.
     (case data messages of
        [] \<Rightarrow> raise IndexError
      | m # _ \<Rightarrow>
          (let last_message_content = message_content m;
               text_content = filter (\<lambda>c. content_type c = ''text'') last_message_content
           in if text_content = [] then raise ValueError
              else (case text_content of
                      TextContentBlock v # _ \<Rightarrow>
                        return \<lparr>content = v, source = agent_type self\<rparr>
                    | _ \<Rightarrow> raise AttributeError))))))"

subsection \<open>on_reset\<close>

text \<open>
  The \<open>while True\<close> loop that pages through the thread. Nothing in the handler bounds
  it: it runs for as long as the client reports a next page, so not returning is the
  value \<open>None\<close>.
\<close>

partial_function (option) collect_msgs ::
  "'v AsyncClient \<Rightarrow> string \<Rightarrow> string list \<Rightarrow> 'v world \<Rightarrow> ((error + string list) \<times> 'v world) option" where
  "collect_msgs client tid all_msgs s =
     (case (if all_msgs = []
            then link_future (MessagesList tid None None None)
                   (messages_list client tid None None None) s
            else link_future (MessagesList tid None None (Some (last all_msgs)))
                   (messages_list client tid None None (Some (last all_msgs))) s) of
        (Inl e, s') \<Rightarrow> Some (Inl e, s')
      | (Inr msgs, s') \<Rightarrow>
          (let all_msgs' = all_msgs @ map message_id (data msgs)
           in if \<not> has_next_page msgs then Some (Inr all_msgs', s')
              else collect_msgs client tid all_msgs' s'))"

text \<open>The \<open>for msg_id in all_msgs\<close> loop, with its assertion after each delete.\<close>

fun delete_msgs :: "'v AsyncClient \<Rightarrow> string \<Rightarrow> string list \<Rightarrow> ('v, unit) handler" where
  "delete_msgs client tid [] s = (Inr (), s)"
| "delete_msgs client tid (msg_id # rest) s =
     (case link_future (MessagesDelete msg_id tid) (messages_delete client msg_id tid) s of
        (Inl e, s') \<Rightarrow> (Inl e, s')
      | (Inr status, s') \<Rightarrow>
          if deleted status then delete_msgs client tid rest s'
          else (Inl AssertionError, s'))"

definition on_reset ::
  "'v AsyncClient \<Rightarrow> OpenAIAssistantAgent \<Rightarrow> 'v world \<Rightarrow> ((error + unit) \<times> 'v world) option" where
  "on_reset client self s =
     (case collect_msgs client (thread_id self) [] s of
        None \<Rightarrow> None
      | Some (Inl e, s') \<Rightarrow> Some (Inl e, s')
      | Some (Inr all_msgs, s') \<Rightarrow> Some (delete_msgs client (thread_id self) all_msgs s'))"

subsection \<open>The two upload handlers\<close>

text \<open>\<open>os.path.basename\<close> (POSIX): what follows the last slash.\<close>

definition basename :: "string \<Rightarrow> string" where
  "basename p = rev (takeWhile (\<lambda>c. c \<noteq> CHR ''/'') (rev p))"

text \<open>
  \<open>aiofiles.open(path, mode="rb")\<close> and \<open>f.read()\<close> on the local file system, a map
  from paths to file contents: the whole content, or the error of a missing file.
\<close>

definition read_file :: "(string \<rightharpoonup> bytes) \<Rightarrow> string \<Rightarrow> ('v, bytes) handler" where
  "read_file fs path = (case fs path of None \<Rightarrow> raise FileNotFoundError | Some c \<Rightarrow> return c)"

definition on_upload_for_code_interpreter ::
  "'v AsyncClient \<Rightarrow> (string \<rightharpoonup> bytes) \<Rightarrow> OpenAIAssistantAgent \<Rightarrow> UploadForCodeInterpreter
     \<Rightarrow> ('v, unit) handler" where
  "on_upload_for_code_interpreter client fs self message =
     await (read_file fs (UploadForCodeInterpreter.file_path message))
       (\<lambda>file_content.
     let file_name = basename (UploadForCodeInterpreter.file_path message) in
     await (link_future
              (FilesCreate file_name file_content ''assistants'')
              (files_create client file_name file_content ''assistants''))
       (\<lambda>file.
     await (link_future
              (ThreadsRetrieve (thread_id self))
              (threads_retrieve client (thread_id self)))
       (\<lambda>thread.
     let tool_resources' =
           (case tool_resources thread of Some tr \<Rightarrow> tr | None \<Rightarrow> ToolResources_default)
     in (case code_interpreter tool_resources' of
           None \<Rightarrow> raise AssertionError
         | Some ci \<Rightarrow>
             (let file_ids' =
                    (case file_ids ci of
                       Some (x # xs) \<Rightarrow> x # xs
                     | _ \<Rightarrow> [file_id file])
              in await (link_future
                          (ThreadsUpdate (thread_id self) file_ids')
                          (threads_update client (thread_id self) file_ids'))
                   (\<lambda>_. return ()))))))"

definition on_upload_for_file_search ::
  "'v AsyncClient \<Rightarrow> (string \<rightharpoonup> bytes) \<Rightarrow> OpenAIAssistantAgent \<Rightarrow> UploadForFileSearch
     \<Rightarrow> ('v, unit) handler" where
  "on_upload_for_file_search client fs self message =
     await (read_file fs (file_path message))
       (\<lambda>file_content.
     let file_name = basename (file_path message) in
     await (link_future
              (UploadAndPoll (vector_store_id message) [(file_name, file_content)])
              (upload_and_poll client (vector_store_id message) [(file_name, file_content)]))
       (\<lambda>_. return ()))"

section \<open>A reference vendor\<close>

text \<open>
  Modelled from the spec: the vendor's thread store, which is an external service and
  not part of the sources. The remote state is the thread's messages in the order the
  vendor lists them by default (newest first); \<open>order="asc"\<close> lists them reversed.
  A list call returns the messages after the cursor, \<open>limit\<close> of them (the vendor's page
  size when no limit is passed), with the next-page flag set when more remain after
  the page.
\<close>

definition paged_list ::
  "nat \<Rightarrow> string \<Rightarrow> string option \<Rightarrow> nat option \<Rightarrow> string option \<Rightarrow> Message list
     \<Rightarrow> (error + MessagePage) \<times> Message list" where
  "paged_list page_size tid order limit after thread =
     (let listing = (if order = Some ''asc'' then rev thread else thread);
          rest = (case after of
                    None \<Rightarrow> listing
                  | Some c \<Rightarrow> drop 1 (dropWhile (\<lambda>m. message_id m \<noteq> c) listing));
          n = (case limit of None \<Rightarrow> page_size | Some l \<Rightarrow> l)
      in (Inr \<lparr>data = take n rest, has_next_page = n < length rest\<rparr>, thread))"

text \<open>
  Modelled from the spec: the vendor's delete call, also external. It removes the
  message with the given id from the thread and reports it deleted; an unknown id is an
  API error.
\<close>

definition paged_delete ::
  "string \<Rightarrow> string \<Rightarrow> Message list \<Rightarrow> (error + MessageDeleted) \<times> Message list" where
  "paged_delete msg_id tid thread =
     (if msg_id \<in> set (map message_id thread)
      then (Inr \<lparr>deleted = True\<rparr>, filter (\<lambda>m. message_id m \<noteq> msg_id) thread)
      else (Inl (APIError ''No message found''), thread))"

text \<open>
  A client whose every call succeeds with a fixed response and leaves the remote state
  as it is; the examples below start from it.
\<close>

definition canned_client :: "FileObject \<Rightarrow> Thread \<Rightarrow> MessagePage \<Rightarrow> 'v AsyncClient" where
  "canned_client file thread page =
     \<lparr>messages_create = (\<lambda>tid c role sender v. (Inr (), v)),
      runs_stream = (\<lambda>tid aid v. (Inr (), v)),
      messages_list = (\<lambda>tid order limit after v. (Inr page, v)),
      messages_delete = (\<lambda>msg_id tid v. (Inr \<lparr>deleted = True\<rparr>, v)),
      files_create = (\<lambda>name c purpose v. (Inr file, v)),
      threads_retrieve = (\<lambda>tid v. (Inr thread, v)),
      threads_update = (\<lambda>tid ids v. (Inr (), v)),
      upload_and_poll = (\<lambda>vsid fs v. (Inr (), v))\<rparr>"

definition paged_client :: "nat \<Rightarrow> Message list AsyncClient" where
  "paged_client page_size =
     (canned_client \<lparr>file_id = ''file_1''\<rparr> \<lparr>tool_resources = None\<rparr> \<lparr>data = [], has_next_page = False\<rparr>)
       \<lparr>messages_list := paged_list page_size, messages_delete := paged_delete\<rparr>"

text \<open>A client that pages like the reference vendor and refuses to delete \<open>msg_2\<close>.\<close>

definition refusing_client :: "Message list AsyncClient" where
  "refusing_client =
     (paged_client 2)
       \<lparr>messages_delete := (\<lambda>msg_id tid v. (Inr \<lparr>deleted = (msg_id \<noteq> ''msg_2'')\<rparr>, v))\<rparr>"

text \<open>The agent of the notebook, registered under the type \<open>assistant\<close>.\<close>

definition assistant :: OpenAIAssistantAgent where
  "assistant = \<lparr>description = ''OpenAI Assistant Agent'', assistant_id = ''asst_1'',
                 thread_id = ''thread_1'', agent_type = ''assistant''\<rparr>"

definition three_messages :: "Message list" where
  "three_messages =
     [\<lparr>message_id = ''msg_3'', message_content = [TextContentBlock ''Hello!'']\<rparr>,
      \<lparr>message_id = ''msg_2'', message_content = [TextContentBlock ''Hi'']\<rparr>,
      \<lparr>message_id = ''msg_1'', message_content = []\<rparr>]"

definition thread_with_files :: "string list option \<Rightarrow> Thread" where
  "thread_with_files ids =
     \<lparr>tool_resources = Some \<lparr>code_interpreter = Some \<lparr>file_ids = ids\<rparr>, file_search = None\<rparr>\<rparr>"

definition one_page :: "Message list \<Rightarrow> MessagePage" where
  "one_page ms = \<lparr>data = ms, has_next_page = False\<rparr>"

definition wages_fs :: "string \<rightharpoonup> bytes" where
  "wages_fs = [''data/seattle_city_wages.csv'' \<mapsto> ''department,last_name'']"

definition html_fs :: "string \<rightharpoonup> bytes" where
  "html_fs = [''docs/third_anglo_afghan_war.html'' \<mapsto> ''<html></html>'']"

definition csv_upload :: UploadForCodeInterpreter where
  "csv_upload = \<lparr>UploadForCodeInterpreter.file_path = ''data/seattle_city_wages.csv''\<rparr>"

definition html_upload :: UploadForFileSearch where
  "html_upload = \<lparr>file_path = ''docs/third_anglo_afghan_war.html'', vector_store_id = ''vs_1''\<rparr>"

definition new_file :: FileObject where
  "new_file = \<lparr>file_id = ''file_new''\<rparr>"

definition greeting :: TextMessage where
  "greeting = \<lparr>content = ''Hello, how are you today!'', source = ''user''\<rparr>"

definition self_addressed :: TextMessage where
  "self_addressed = \<lparr>content = ''Hello'', source = ''assistant''\<rparr>"

definition mixed_reply :: Message where
  "mixed_reply =
     \<lparr>message_id = ''msg_9'',
      message_content = [ImageFileContentBlock ''file_7'', TextContentBlock ''Here is the plot.'',
                         TextContentBlock ''Anything else?'']\<rparr>"

definition image_reply :: Message where
  "image_reply = \<lparr>message_id = ''msg_9'', message_content = [ImageFileContentBlock ''file_7'']\<rparr>"

section \<open>A vendor that stores files\<close>

text \<open>
  Modelled from the spec: the vendor's file store and the thread's tool resources, both
  external. An upload stores the file under the name it is given and answers with the
  new file's id; retrieving the thread gives its tool resources; updating the thread
  sets its code-interpreter file id list to the list it is given.
\<close>

record vendor_store =
  stored_files :: "(string \<times> string \<times> bytes) list"
  thread_resources :: "ToolResources option"

definition store_files_create ::
  "string \<Rightarrow> bytes \<Rightarrow> string \<Rightarrow> vendor_store \<Rightarrow> (error + FileObject) \<times> vendor_store" where
  "store_files_create name c purpose s =
     (Inr \<lparr>file_id = ''file_'' @ name\<rparr>,
      s\<lparr>stored_files := stored_files s @ [(''file_'' @ name, name, c)]\<rparr>)"

definition store_threads_retrieve :: "string \<Rightarrow> vendor_store \<Rightarrow> (error + Thread) \<times> vendor_store" where
  "store_threads_retrieve tid s = (Inr \<lparr>tool_resources = thread_resources s\<rparr>, s)"

definition store_threads_update ::
  "string \<Rightarrow> string list \<Rightarrow> vendor_store \<Rightarrow> (error + unit) \<times> vendor_store" where
  "store_threads_update tid ids s =
     (Inr (),
      s\<lparr>thread_resources :=
          Some \<lparr>code_interpreter = Some \<lparr>file_ids = Some ids\<rparr>,
                file_search = (case thread_resources s of
                                 None \<Rightarrow> None
                               | Some tr \<Rightarrow> file_search tr)\<rparr>\<rparr>)"

definition store_client :: "vendor_store AsyncClient" where
  "store_client =
     (canned_client new_file (thread_with_files None) (one_page []))
       \<lparr>files_create := store_files_create,
        threads_retrieve := store_threads_retrieve,
        threads_update := store_threads_update\<rparr>"

definition store_with_old_file :: vendor_store where
  "store_with_old_file =
     \<lparr>stored_files = [(''file_old'', ''old.csv'', ''a,b'')],
      thread_resources = tool_resources (thread_with_files (Some [''file_old'']))\<rparr>"

definition empty_store :: vendor_store where
  "empty_store = \<lparr>stored_files = [], thread_resources = tool_resources (thread_with_files (Some []))\<rparr>"

section \<open>A vendor that indexes\<close>

text \<open>
  Modelled from the spec: the vendor's vector stores and its upload-and-poll call, both
  external ("upload it into a named remote vector store, waiting for indexing
  completion before returning"). A vector store holds files, each with the polls of
  indexing work it still needs; a file is \<open>in_progress\<close> while work is left and
  \<open>completed\<close> after. The call adds the files to the named store and polls, indexing
  advancing with each poll, until no file of that store is in progress.
\<close>

datatype indexing = in_progress | completed

type_synonym vector_stores = "(string \<times> (string \<times> bytes) \<times> nat) list"

definition upload_batch :: "nat \<Rightarrow> string \<Rightarrow> (string \<times> bytes) list \<Rightarrow> vector_stores \<Rightarrow> vector_stores" where
  "upload_batch latency vs files stores = stores @ map (\<lambda>f. (vs, f, latency)) files"

definition poll_once :: "vector_stores \<Rightarrow> vector_stores" where
  "poll_once stores = map (\<lambda>(vs, f, n). (vs, f, n - 1)) stores"

definition pending :: "string \<Rightarrow> vector_stores \<Rightarrow> bool" where
  "pending vs stores = list_ex (\<lambda>(vs', f, n). vs' = vs \<and> 0 < n) stores"

definition work_left :: "vector_stores \<Rightarrow> nat" where
  "work_left stores = sum_list (map (\<lambda>(vs, f, n). n) stores)"

lemma work_left_poll_once_le: "work_left (poll_once stores) \<le> work_left stores"
  by (induction stores) (auto simp: work_left_def poll_once_def)

lemma work_left_poll_once: "pending vs stores \<Longrightarrow> work_left (poll_once stores) < work_left stores"
proof (induction stores)
  case Nil
  then show ?case by (simp add: pending_def)
next
  case (Cons e stores)
  obtain vs' f n where e: "e = (vs', f, n)" by (cases e)
  have le: "work_left (poll_once stores) \<le> work_left stores" by (rule work_left_poll_once_le)
  show ?case
  proof (cases "vs' = vs \<and> 0 < n")
    case True
    then have "0 < n" by simp
    moreover have "work_left (poll_once (e # stores)) = (n - 1) + work_left (poll_once stores)"
      by (simp add: e work_left_def poll_once_def)
    moreover have "work_left (e # stores) = n + work_left stores"
      by (simp add: e work_left_def)
    ultimately show ?thesis using le by linarith
  next
    case False
    then have "pending vs stores" using Cons.prems by (auto simp: e pending_def)
    then have "work_left (poll_once stores) < work_left stores" by (rule Cons.IH)
    moreover have "work_left (poll_once (e # stores)) = (n - 1) + work_left (poll_once stores)"
      by (simp add: e work_left_def poll_once_def)
    moreover have "work_left (e # stores) = n + work_left stores"
      by (simp add: e work_left_def)
    ultimately show ?thesis by linarith
  qed
qed

function poll_until_done :: "string \<Rightarrow> vector_stores \<Rightarrow> vector_stores" where
  "poll_until_done vs stores =
     (if pending vs stores then poll_until_done vs (poll_once stores) else stores)"
  by pat_completeness auto
termination
  by (relation "measure (\<lambda>(vs, stores). work_left stores)") (auto intro: work_left_poll_once)

declare poll_until_done.simps [simp del]

definition indexing_upload_and_poll ::
  "nat \<Rightarrow> string \<Rightarrow> (string \<times> bytes) list \<Rightarrow> vector_stores \<Rightarrow> (error + unit) \<times> vector_stores" where
  "indexing_upload_and_poll latency vs files stores =
     (Inr (), poll_until_done vs (upload_batch latency vs files stores))"

text \<open>The indexing status of a file in a vector store; \<open>None\<close> when the store has no such file.\<close>

definition indexing_status :: "vector_stores \<Rightarrow> string \<Rightarrow> string \<times> bytes \<Rightarrow> indexing option" where
  "indexing_status stores vs f =
     (case filter (\<lambda>(vs', f', n). vs' = vs \<and> f' = f) stores of
        [] \<Rightarrow> None
      | e # es \<Rightarrow> if list_ex (\<lambda>(vs', f', n). 0 < n) (e # es) then Some in_progress
                  else Some completed)"

definition indexing_client :: "nat \<Rightarrow> vector_stores AsyncClient" where
  "indexing_client latency =
     (canned_client new_file (thread_with_files None) (one_page []))
       \<lparr>upload_and_poll := indexing_upload_and_poll latency\<rparr>"

section \<open>Clients whose calls are cancelled\<close>






section \<open>Reading the log of calls\<close>

fun is_list_call :: "call \<Rightarrow> bool" where
  "is_list_call (MessagesList _ _ _ _) = True"
| "is_list_call _ = False"

fun is_delete_call :: "call \<Rightarrow> bool" where
  "is_delete_call (MessagesDelete _ _) = True"
| "is_delete_call _ = False"

text \<open>The file id lists written back by the thread updates of a log, in order.\<close>

fun written_file_ids :: "call list \<Rightarrow> string list list" where
  "written_file_ids [] = []"
| "written_file_ids (ThreadsUpdate _ ids # cs) = ids # written_file_ids cs"
| "written_file_ids (_ # cs) = written_file_ids cs"

text \<open>The (name, content) pairs handed to the vendor by the upload calls of a log.\<close>

fun uploads :: "call list \<Rightarrow> (string \<times> bytes) list" where
  "uploads [] = []"
| "uploads (FilesCreate name c _ # cs) = (name, c) # uploads cs"
| "uploads (UploadAndPoll _ files # cs) = files @ uploads cs"
| "uploads (_ # cs) = uploads cs"

section \<open>The first text part\<close>

text \<open>
  The spec's "first text part" of a message: the value of the first content part that
  is a text block, if there is one. The handler computes it by filtering; the two are
  compared below.
\<close>

fun first_text :: "MessageContent list \<Rightarrow> string option" where
  "first_text [] = None"
| "first_text (TextContentBlock t # cs) = Some t"
| "first_text (_ # cs) = first_text cs"

section \<open>Auxiliary facts\<close>

lemmas handler_defs = await_def return_def raise_def link_future_def read_file_def Let_def

lemma paged_client_simps:
  "messages_list (paged_client p) = paged_list p"
  "messages_delete (paged_client p) = paged_delete"
  by (simp_all add: paged_client_def)

lemma delete_msgs_append:
  "delete_msgs client tid (xs @ ys) s =
     (case delete_msgs client tid xs s of
        (Inl e, s') \<Rightarrow> (Inl e, s')
      | (Inr u, s') \<Rightarrow> delete_msgs client tid ys s')"
  by (induction xs arbitrary: s) (auto split: prod.splits sum.splits)

lemma drop_after_cursor:
  assumes "distinct (map message_id ms)" "0 < k" "k \<le> length ms"
  shows "drop 1 (dropWhile (\<lambda>m. message_id m \<noteq> message_id (ms ! (k - 1))) ms) = drop k ms"
proof -
  have split: "ms = take (k - 1) ms @ ms ! (k - 1) # drop k ms"
    using assms(2,3) by (metis Suc_diff_1 Suc_le_lessD id_take_nth_drop)
  have pre: "\<And>x. x \<in> set (take (k - 1) ms) \<Longrightarrow> message_id x \<noteq> message_id (ms ! (k - 1))"
  proof -
    fix x assume "x \<in> set (take (k - 1) ms)"
    then obtain i where i: "i < k - 1" "x = ms ! i"
      using assms(3) by (auto simp: in_set_conv_nth)
    have "i < length (map message_id ms)" "k - 1 < length (map message_id ms)" "i \<noteq> k - 1"
      using assms i by simp_all
    then have "map message_id ms ! i \<noteq> map message_id ms ! (k - 1)"
      using assms(1) nth_eq_iff_index_eq by blast
    then show "message_id x \<noteq> message_id (ms ! (k - 1))"
      using assms i by simp
  qed
  have "dropWhile (\<lambda>m. message_id m \<noteq> message_id (ms ! (k - 1))) ms
        = dropWhile (\<lambda>m. message_id m \<noteq> message_id (ms ! (k - 1))) (ms ! (k - 1) # drop k ms)"
    by (subst split, rule dropWhile_append2) (use pre in auto)
  then show ?thesis by simp
qed

lemma last_take_ids:
  assumes "0 < k" "k \<le> length ms"
  shows "last (map message_id (take k ms)) = message_id (ms ! (k - 1))"
proof -
  have ne: "map message_id (take k ms) \<noteq> []" using assms by auto
  have len: "length (map message_id (take k ms)) = k" using assms by simp
  show ?thesis
    using assms by (simp only: last_conv_nth [OF ne] len) simp
qed

lemma pages_step:
  fixes p r :: nat
  assumes "0 < p" "p < r"
  shows "Suc (max 1 ((r - p + p - 1) div p)) = max 1 ((r + p - 1) div p)"
proof -
  have e: "r + p - 1 = (r - 1) + p" using assms by simp
  have p0: "p \<noteq> 0" using assms by simp
  have "((r - 1) + p) div p = (r - 1) div p + 1" by (rule div_add_self2 [OF p0])
  with e have a: "(r + p - 1) div p = (r - 1) div p + 1" by (simp only:)
  have "p \<le> r - 1" using assms by simp
  then have "1 \<le> (r - 1) div p" using assms
    by (metis div_le_mono div_self less_numeral_extra(3))
  then show ?thesis using a assms by simp
qed

lemma pages_last:
  fixes p r :: nat
  assumes "0 < p" "r \<le> p"
  shows "max 1 ((r + p - 1) div p) = 1"
proof -
  have "r + p - 1 < 2 * p" using assms by simp
  then have "(r + p - 1) div p < 2" using assms
    by (simp add: less_mult_imp_div_less)
  then show ?thesis by simp
qed

lemma collect_msgs_paged:
  assumes p: "0 < p"
    and d: "distinct (map message_id ms)"
    and cl: "messages_list client = paged_list p"
    and k: "k \<le> length ms"
  shows "\<exists>calls. collect_msgs client tid (map message_id (take k ms)) (ms, log)
            = Some (Inr (map message_id ms), (ms, log @ calls))
          \<and> list_all is_list_call calls
          \<and> length calls = max 1 ((length ms - k + p - 1) div p)"
  using k
proof (induction "length ms - k" arbitrary: k log rule: less_induct)
  case less
  let ?after = "if map message_id (take k ms) = [] then None
                else Some (last (map message_id (take k ms)))"
  let ?c = "MessagesList tid None None ?after"
  have rest: "(case ?after of None \<Rightarrow> ms
               | Some c \<Rightarrow> drop 1 (dropWhile (\<lambda>m. message_id m \<noteq> c) ms)) = drop k ms"
  proof (cases "k = 0")
    case True
    then show ?thesis by simp
  next
    case False
    then have k0: "0 < k" by simp
    have ne: "map message_id (take k ms) \<noteq> []" using k0 less.prems by auto
    show ?thesis
      using ne last_take_ids [OF k0 less.prems] drop_after_cursor [OF d k0 less.prems]
      by simp
  qed
  have page: "paged_list p tid None None ?after ms
              = (Inr \<lparr>data = take p (drop k ms), has_next_page = p < length ms - k\<rparr>, ms)"
    unfolding paged_list_def Let_def
    by (simp only: option.distinct if_False rest option.case length_drop)
  have acc: "map message_id (take k ms) @ map message_id (take p (drop k ms))
             = map message_id (take (k + p) ms)"
    by (simp add: take_add flip: map_append)
  show ?case
  proof (cases "p < length ms - k")
    case False
    then have all: "take (k + p) ms = ms" by simp
    have "collect_msgs client tid (map message_id (take k ms)) (ms, log)
            = Some (Inr (map message_id ms), (ms, log @ [?c]))"
      by (subst collect_msgs.simps) (use False page acc all in \<open>auto simp: link_future_def cl\<close>)
    moreover have "length [?c] = max 1 ((length ms - k + p - 1) div p)"
      using pages_last [OF p, of "length ms - k"] False by simp
    ultimately show ?thesis by (intro exI [of _ "[?c]"]) simp
  next
    case True
    then have k': "k + p \<le> length ms" and lt: "length ms - (k + p) < length ms - k"
      using p by simp_all
    from less.hyps [OF lt k', of "log @ [?c]"] obtain calls where
      rec: "collect_msgs client tid (map message_id (take (k + p) ms)) (ms, log @ [?c])
              = Some (Inr (map message_id ms), (ms, (log @ [?c]) @ calls))"
      and lc: "list_all is_list_call calls"
      and len: "length calls = max 1 ((length ms - (k + p) + p - 1) div p)"
      by blast
    have "collect_msgs client tid (map message_id (take k ms)) (ms, log)
            = Some (Inr (map message_id ms), (ms, log @ ?c # calls))"
      by (subst collect_msgs.simps) (use True page acc rec in \<open>auto simp: link_future_def cl\<close>)
    moreover have "length (?c # calls) = max 1 ((length ms - k + p - 1) div p)"
      using pages_step [OF p True] len by simp
    ultimately show ?thesis using lc by (intro exI [of _ "?c # calls"]) simp
  qed
qed

lemma delete_msgs_paged:
  assumes cl: "messages_delete client = paged_delete"
  shows "distinct (map message_id ms) \<Longrightarrow>
         delete_msgs client tid (map message_id ms) (ms, log)
           = (Inr (), ([], log @ map (\<lambda>m. MessagesDelete (message_id m) tid) ms))"
proof (induction ms arbitrary: log)
  case Nil
  then show ?case by simp
next
  case (Cons m ms)
  then have notin: "message_id m \<notin> set (map message_id ms)" and d: "distinct (map message_id ms)"
    by simp_all
  have f: "filter (\<lambda>x. message_id x \<noteq> message_id m) ms = ms"
  proof -
    have "\<And>x. x \<in> set ms \<Longrightarrow> message_id x \<noteq> message_id m"
      using notin by (metis image_eqI set_map)
    then show ?thesis by (simp add: filter_id_conv)
  qed
  show ?case
    using Cons.IH [OF d, of "log @ [MessagesDelete (message_id m) tid]"] f
    by (simp add: link_future_def cl paged_delete_def)
qed

lemma basename_wages: "basename ''data/seattle_city_wages.csv'' = ''seattle_city_wages.csv''"
  by (simp add: basename_def)

lemma basename_split:
  "\<exists>dir. p = dir @ basename p \<and> CHR ''/'' \<notin> set (basename p)
         \<and> (dir = [] \<or> last dir = CHR ''/'')"
proof -
  let ?P = "\<lambda>c. c \<noteq> CHR ''/''"
  let ?dir = "rev (dropWhile ?P (rev p))"
  have "?dir @ rev (takeWhile ?P (rev p)) = rev (takeWhile ?P (rev p) @ dropWhile ?P (rev p))"
    by (simp only: rev_append)
  also have "\<dots> = p" by simp
  finally have 1: "p = ?dir @ basename p" by (simp add: basename_def)
  have 2: "CHR ''/'' \<notin> set (basename p)"
    by (auto simp: basename_def dest: set_takeWhileD)
  have 3: "?dir = [] \<or> last ?dir = CHR ''/''"
  proof (cases "dropWhile ?P (rev p) = []")
    case True
    then show ?thesis by simp
  next
    case False
    then have "\<not> ?P (hd (dropWhile ?P (rev p)))" by (rule hd_dropWhile)
    then show ?thesis using False by (simp add: last_rev)
  qed
  from 1 2 3 show ?thesis by blast
qed

lemma filter_text_first_text:
  "filter (\<lambda>c. content_type c = ''text'') cs =
     (case first_text cs of
        None \<Rightarrow> []
      | Some t \<Rightarrow> TextContentBlock t # tl (filter (\<lambda>c. content_type c = ''text'') cs))"
proof (induction cs)
  case Nil
  then show ?case by simp
next
  case (Cons c cs)
  then show ?case by (cases c) (simp_all split: option.splits)
qed

lemma first_text_None: "first_text cs = None \<longleftrightarrow> (\<forall>c \<in> set cs. content_type c \<noteq> ''text'')"
proof (induction cs)
  case Nil
  then show ?case by simp
next
  case (Cons c cs)
  then show ?case by (cases c) simp_all
qed

lemma first_text_append:
  "\<forall>c \<in> set pre. content_type c \<noteq> ''text'' \<Longrightarrow>
   first_text (pre @ TextContentBlock t # post) = Some t"
proof (induction pre)
  case Nil
  then show ?case by simp
next
  case (Cons c pre)
  then show ?case by (cases c) simp_all
qed

lemma handle_message_fetched:
  assumes "messages_create client (thread_id self) (content message) ''user'' (source message) v
             = (Inr u1, v1)"
    and "runs_stream client (thread_id self) (assistant_id self) v1 = (Inr u2, v2)"
    and "messages_list client (thread_id self) (Some ''desc'') (Some 1) None v2 = (Inr page, v3)"
    and "data page = m # rest"
  shows "fst (handle_message client self message (v, log)) =
           (case first_text (message_content m) of
              None \<Rightarrow> Inl ValueError
            | Some t \<Rightarrow> Inr \<lparr>content = t, source = agent_type self\<rparr>)"
proof (cases "first_text (message_content m)")
  case None
  then have "filter (\<lambda>c. content_type c = ''text'') (message_content m) = []"
    using filter_text_first_text [of "message_content m"] by simp
  then show ?thesis
    using assms None by (simp add: handle_message_def handler_defs)
next
  case (Some t)
  then obtain r where "filter (\<lambda>c. content_type c = ''text'') (message_content m)
                         = TextContentBlock t # r"
    using filter_text_first_text [of "message_content m"] by simp
  then show ?thesis
    using assms Some by (simp add: handle_message_def handler_defs)
qed

lemma handle_message_Inr:
  assumes "handle_message client self message s = (Inr reply, s')"
  shows "source reply = agent_type self"
  using assms
  by (auto simp add: handle_message_def handler_defs
      split: prod.splits sum.splits list.splits if_splits MessageContent.splits)

lemma on_upload_for_file_search_run:
  assumes "fs (file_path message) = Some c"
  shows "on_upload_for_file_search client fs self message (v, log) =
           (case upload_and_poll client (vector_store_id message)
                   [(basename (file_path message), c)] v of
              (r, v') \<Rightarrow>
                (r, (v', log @ [UploadAndPoll (vector_store_id message)
                                  [(basename (file_path message), c)]])))"
  using assms
  by (auto simp add: on_upload_for_file_search_def handler_defs split: prod.splits sum.splits)

lemma on_upload_for_code_interpreter_run:
  assumes "fs (UploadForCodeInterpreter.file_path message) = Some c"
  shows "on_upload_for_code_interpreter client fs self message (v, log) =
     (case files_create client (basename (UploadForCodeInterpreter.file_path message)) c
             ''assistants'' v of
        (Inl e, v1) \<Rightarrow>
          (Inl e, (v1, log @ [FilesCreate (basename (UploadForCodeInterpreter.file_path message))
                                c ''assistants'']))
      | (Inr file, v1) \<Rightarrow>
          (case threads_retrieve client (thread_id self) v1 of
             (Inl e, v2) \<Rightarrow>
               (Inl e, (v2, log @ [FilesCreate
                                     (basename (UploadForCodeInterpreter.file_path message))
                                     c ''assistants'',
                                   ThreadsRetrieve (thread_id self)]))
           | (Inr thread, v2) \<Rightarrow>
               (case code_interpreter
                       (case tool_resources thread of
                          Some tr \<Rightarrow> tr
                        | None \<Rightarrow> ToolResources_default) of
                  None \<Rightarrow>
                    (Inl AssertionError,
                     (v2, log @ [FilesCreate
                                   (basename (UploadForCodeInterpreter.file_path message))
                                   c ''assistants'',
                                 ThreadsRetrieve (thread_id self)]))
                | Some ci \<Rightarrow>
                    (case threads_update client (thread_id self)
                            (case file_ids ci of
                               Some (x # xs) \<Rightarrow> x # xs
                             | _ \<Rightarrow> [file_id file]) v2 of
                       (r, v3) \<Rightarrow>
                         (r, (v3, log @ [FilesCreate
                                   (basename (UploadForCodeInterpreter.file_path message))
                                   c ''assistants'',
                                 ThreadsRetrieve (thread_id self),
                                 ThreadsUpdate (thread_id self)
                                   (case file_ids ci of
                                      Some (x # xs) \<Rightarrow> x # xs
                                    | _ \<Rightarrow> [file_id file])]))))))"
  using assms
  by (auto simp add: on_upload_for_code_interpreter_def handler_defs
      split: prod.splits sum.splits option.splits list.splits)


lemma poll_until_done_not_pending: "\<not> pending vs (poll_until_done vs stores)"
proof (induction vs stores rule: poll_until_done.induct)
  case (1 vs stores)
  then show ?case by (subst poll_until_done.simps) simp
qed

lemma poll_once_keys: "map (\<lambda>(vs, f, n). (vs, f)) (poll_once stores) = map (\<lambda>(vs, f, n). (vs, f)) stores"
  by (induction stores) (auto simp: poll_once_def)

lemma poll_until_done_keys:
  "map (\<lambda>(vs, f, n). (vs, f)) (poll_until_done vs stores) = map (\<lambda>(vs, f, n). (vs, f)) stores"
proof (induction vs stores rule: poll_until_done.induct)
  case (1 vs stores)
  then show ?case by (subst poll_until_done.simps) (simp add: poll_once_keys)
qed

lemma indexing_status_completed:
  assumes "(vs, f) \<in> set (map (\<lambda>(vs, f, n). (vs, f)) stores)" and "\<not> pending vs stores"
  shows "indexing_status stores vs f = Some completed"
proof -
  let ?es = "filter (\<lambda>(vs', f', n). vs' = vs \<and> f' = f) stores"
  have ne: "?es \<noteq> []" using assms(1) by (auto simp: filter_empty_conv)
  have "\<not> list_ex (\<lambda>(vs', f', n). 0 < n) ?es"
    using assms(2) by (auto simp: pending_def list_ex_iff)
  then show ?thesis using ne
    by (cases ?es) (simp_all add: indexing_status_def)
qed

lemma indexing_upload_and_poll_completed:
  assumes "indexing_upload_and_poll latency vs files stores = (Inr (), stores')"
    and "f \<in> set files"
  shows "indexing_status stores' vs f = Some completed"
proof -
  have s: "stores' = poll_until_done vs (upload_batch latency vs files stores)"
    using assms(1) by (simp add: indexing_upload_and_poll_def)
  have "(vs, f) \<in> set (map (\<lambda>(vs, f, n). (vs, f)) (upload_batch latency vs files stores))"
    using assms(2) by (force simp: upload_batch_def)
  then have "(vs, f) \<in> set (map (\<lambda>(vs, f, n). (vs, f)) stores')"
    by (simp only: s poll_until_done_keys)
  then show ?thesis
    using poll_until_done_not_pending [of vs "upload_batch latency vs files stores"]
    by (intro indexing_status_completed) (simp_all add: s)
qed

section \<open>on_reset\<close>

text \<open>
  C6, as amended. Against a thread of \<open>N\<close> messages with distinct ids, held by a vendor
  that pages with size \<open>p > 0\<close> and sets the next-page flag when more messages remain,
  the Reset handler returns normally, having issued \<open>max 1 (ceil (N / p))\<close> list calls
  (one list call even when the thread is empty) and exactly \<open>N\<close> delete calls, one per
  message id in listing order, and nothing else; the thread then holds no message.
\<close>

theorem on_reset_paged:
  assumes "0 < p"
    and "distinct (map message_id ms)"
    and "messages_list client = paged_list p"
    and "messages_delete client = paged_delete"
  shows "\<exists>calls. on_reset client self (ms, log) = Some (Inr (), ([], log @ calls))
           \<and> length (filter is_list_call calls) = max 1 ((length ms + p - 1) div p)
           \<and> filter is_delete_call calls = map (\<lambda>m. MessagesDelete (message_id m) (thread_id self)) ms
           \<and> list_all (\<lambda>c. is_list_call c \<or> is_delete_call c) calls"
proof -
  let ?tid = "thread_id self"
  let ?dels = "map (\<lambda>m. MessagesDelete (message_id m) ?tid) ms"
  from collect_msgs_paged [OF assms(1,2,3), of 0 ?tid log] obtain lists where
    c: "collect_msgs client ?tid [] (ms, log) = Some (Inr (map message_id ms), (ms, log @ lists))"
    and l: "list_all is_list_call lists"
    and n: "length lists = max 1 ((length ms + p - 1) div p)"
    by auto
  have r: "on_reset client self (ms, log) = Some (Inr (), ([], log @ lists @ ?dels))"
    using c delete_msgs_paged [OF assms(4,2), of ?tid "log @ lists"]
    by (simp add: on_reset_def)
  have fl: "filter is_list_call lists = lists" "filter is_delete_call lists = []"
    using l by (induction lists) (auto elim: is_list_call.elims)
  have fd: "filter is_list_call ?dels = []" "filter is_delete_call ?dels = ?dels"
    by (induction ms) auto
  have la: "list_all (\<lambda>c. is_list_call c \<or> is_delete_call c) (lists @ ?dels)"
    using l by (auto simp: list_all_iff)
  show ?thesis
    using r n fl fd la by (intro exI [of _ "lists @ ?dels"]) simp
qed

theorem on_reset_paged_witness:
  "\<exists>calls. on_reset (paged_client 2) assistant
      ([\<lparr>message_id = ''msg_3'', message_content = []\<rparr>,
        \<lparr>message_id = ''msg_2'', message_content = []\<rparr>,
        \<lparr>message_id = ''msg_1'', message_content = []\<rparr>], []) = Some (Inr (), ([], calls))
     \<and> length (filter is_list_call calls) = 2
     \<and> filter is_delete_call calls
         = [MessagesDelete ''msg_3'' ''thread_1'', MessagesDelete ''msg_2'' ''thread_1'',
            MessagesDelete ''msg_1'' ''thread_1'']"
  using on_reset_paged [of 2 "[\<lparr>message_id = ''msg_3'', message_content = []\<rparr>,
        \<lparr>message_id = ''msg_2'', message_content = []\<rparr>,
        \<lparr>message_id = ''msg_1'', message_content = []\<rparr>]" "paged_client 2" assistant "[]"]
  by (auto simp add: paged_client_simps assistant_def)

text \<open>
  C6 as stated fails on the empty thread: the loop lists once before it can see that
  there is nothing to delete, where \<open>ceil (0 / 20) = 0\<close>.
\<close>

theorem on_reset_empty_thread_counterexample:
  "on_reset (paged_client 20) assistant ([], [])
     = Some (Inr (), ([], [MessagesList ''thread_1'' None None None]))
   \<and> length (filter is_list_call [MessagesList ''thread_1'' None None None])
       \<noteq> (0 + 20 - 1) div (20::nat)"
  unfolding on_reset_def
  by (subst collect_msgs.simps)
     (simp add: link_future_def paged_client_simps paged_list_def assistant_def)

text \<open>
  C9. Whatever the client, if the ids collected are \<open>pre @ bad # post\<close>, the deletes of
  \<open>pre\<close> all went through, and the delete of \<open>bad\<close> answers with \<open>deleted\<close> not true,
  then the Reset handler ends with the assertion's error right after that delete call:
  the log ends with it, and no delete is issued for \<open>post\<close>.
\<close>

theorem on_reset_assert_deleted:
  assumes "collect_msgs client (thread_id self) [] s = Some (Inr (pre @ bad # post), s1)"
    and "delete_msgs client (thread_id self) pre s1 = (Inr (), (v2, log2))"
    and "messages_delete client bad (thread_id self) v2 = (Inr status, v3)"
    and "\<not> deleted status"
  shows "on_reset client self s
           = Some (Inl AssertionError, (v3, log2 @ [MessagesDelete bad (thread_id self)]))"
  using assms by (simp add: on_reset_def delete_msgs_append link_future_def)

theorem on_reset_assert_deleted_witness:
  "on_reset refusing_client assistant (three_messages, [])
     = Some (Inl AssertionError,
             (three_messages,
              [MessagesList ''thread_1'' None None None,
               MessagesList ''thread_1'' None None (Some ''msg_2''),
               MessagesDelete ''msg_3'' ''thread_1'',
               MessagesDelete ''msg_2'' ''thread_1'']))"
proof -
  have 1: "collect_msgs refusing_client (thread_id assistant) [] (three_messages, [])
             = Some (Inr ([''msg_3''] @ ''msg_2'' # [''msg_1'']),
                     (three_messages,
                      [MessagesList ''thread_1'' None None None,
                       MessagesList ''thread_1'' None None (Some ''msg_2'')]))"
    apply (subst collect_msgs.simps)
    apply (simp add: link_future_def refusing_client_def paged_client_def paged_list_def
        three_messages_def assistant_def)
    apply (subst collect_msgs.simps)
    apply (simp add: link_future_def refusing_client_def paged_client_def paged_list_def
        three_messages_def assistant_def)
    done
  have 2: "delete_msgs refusing_client (thread_id assistant) [''msg_3'']
             (three_messages,
              [MessagesList ''thread_1'' None None None,
               MessagesList ''thread_1'' None None (Some ''msg_2'')])
           = (Inr (), (three_messages,
                [MessagesList ''thread_1'' None None None,
                 MessagesList ''thread_1'' None None (Some ''msg_2''),
                 MessagesDelete ''msg_3'' ''thread_1'']))"
    by (simp add: link_future_def refusing_client_def assistant_def)
  have 3: "messages_delete refusing_client ''msg_2'' (thread_id assistant) three_messages
             = (Inr \<lparr>deleted = False\<rparr>, three_messages)"
    by (simp add: refusing_client_def)
  have 4: "\<not> deleted \<lparr>deleted = False\<rparr>" by simp
  show ?thesis
    using on_reset_assert_deleted [OF 1 2 3 4] by (simp add: assistant_def)
qed

section \<open>on_upload_for_code_interpreter\<close>

text \<open>
  C1. When the file is read and uploaded, and the thread retrieved carries a non-empty
  code-interpreter file id list, the handler's last step is the thread update with
  exactly that list: it ends with what that update call gives and leaves the remote
  state the call leaves. That list is the only one written, and when the id of the file
  just created is new (not among the ids the thread already had), it is in no list
  written.
\<close>

theorem upload_keeps_existing_file_ids:
  assumes "fs (UploadForCodeInterpreter.file_path message) = Some c"
    and "files_create client (basename (UploadForCodeInterpreter.file_path message)) c
           ''assistants'' v = (Inr file, v1)"
    and "threads_retrieve client (thread_id self) v1 = (Inr thread, v2)"
    and "tool_resources thread = Some tr"
    and "code_interpreter tr = Some ci"
    and "file_ids ci = Some ids"
    and "ids \<noteq> []"
    and "threads_update client (thread_id self) ids v2 = (r, v3)"
  shows "on_upload_for_code_interpreter client fs self message (v, log)
           = (r, (v3, log @ [FilesCreate (basename (UploadForCodeInterpreter.file_path message))
                               c ''assistants'',
                             ThreadsRetrieve (thread_id self),
                             ThreadsUpdate (thread_id self) ids]))
         \<and> written_file_ids
               (snd (snd (on_upload_for_code_interpreter client fs self message (v, [])))) = [ids]
         \<and> (file_id file \<notin> set ids \<longrightarrow>
              (\<forall>written \<in> set (written_file_ids
                 (snd (snd (on_upload_for_code_interpreter client fs self message (v, []))))).
                 file_id file \<notin> set written))"
proof -
  obtain x xs where ids: "ids = x # xs" using assms(7) by (cases ids) auto
  have run: "on_upload_for_code_interpreter client fs self message (v, l)
           = (r, (v3, l @ [FilesCreate (basename (UploadForCodeInterpreter.file_path message))
                               c ''assistants'',
                             ThreadsRetrieve (thread_id self),
                             ThreadsUpdate (thread_id self) ids]))" for l
    using assms(2-6,8)
    by (simp add: on_upload_for_code_interpreter_run [of fs message c, OF assms(1)] ids)
  show ?thesis
    by (simp add: run)
qed

theorem upload_keeps_existing_file_ids_witness:
  "on_upload_for_code_interpreter store_client wages_fs assistant csv_upload
     (store_with_old_file, [])
   = (Inr (),
      (\<lparr>stored_files = [(''file_old'', ''old.csv'', ''a,b''),
                        (''file_seattle_city_wages.csv'', ''seattle_city_wages.csv'',
                         ''department,last_name'')],
        thread_resources = tool_resources (thread_with_files (Some [''file_old'']))\<rparr>,
       [FilesCreate ''seattle_city_wages.csv'' ''department,last_name'' ''assistants'',
        ThreadsRetrieve ''thread_1'',
        ThreadsUpdate ''thread_1'' [''file_old'']]))"
proof -
  let ?s1 = "\<lparr>stored_files = [(''file_old'', ''old.csv'', ''a,b''),
                        (''file_seattle_city_wages.csv'', ''seattle_city_wages.csv'',
                         ''department,last_name'')],
        thread_resources = tool_resources (thread_with_files (Some [''file_old'']))\<rparr>"
  have 1: "wages_fs (UploadForCodeInterpreter.file_path csv_upload) = Some ''department,last_name''"
    by (simp add: wages_fs_def csv_upload_def)
  have 2: "files_create store_client (basename (UploadForCodeInterpreter.file_path csv_upload))
             ''department,last_name'' ''assistants'' store_with_old_file
           = (Inr \<lparr>file_id = ''file_seattle_city_wages.csv''\<rparr>, ?s1)"
    by (simp add: store_client_def store_files_create_def csv_upload_def basename_wages
        store_with_old_file_def)
  have 3: "threads_retrieve store_client (thread_id assistant) ?s1
           = (Inr (thread_with_files (Some [''file_old''])), ?s1)"
    by (simp add: store_client_def store_threads_retrieve_def thread_with_files_def)
  have 4: "tool_resources (thread_with_files (Some [''file_old'']))
           = Some \<lparr>code_interpreter = Some \<lparr>file_ids = Some [''file_old'']\<rparr>, file_search = None\<rparr>"
    by (simp add: thread_with_files_def)
  have 5: "threads_update store_client (thread_id assistant) [''file_old''] ?s1 = (Inr (), ?s1)"
    by (simp add: store_client_def store_threads_update_def thread_with_files_def)
  have 6: "code_interpreter
             \<lparr>code_interpreter = Some \<lparr>file_ids = Some [''file_old'']\<rparr>, file_search = None\<rparr>
           = Some \<lparr>file_ids = Some [''file_old'']\<rparr>"
    and 7: "file_ids \<lparr>file_ids = Some [''file_old'']\<rparr> = Some [''file_old'']"
    and 8: "[''file_old''] \<noteq> []"
    by simp_all
  show ?thesis
    using upload_keeps_existing_file_ids
      [where fs = wages_fs and message = csv_upload and log = "[]", OF 1 2 3 4 6 7 8 5]
    by (simp add: csv_upload_def basename_wages assistant_def)
qed

text \<open>
  C2. The handler's docstring and its comment \<open>Update thread with new file\<close> promise
  that the list pushed back holds the new file. On a thread that already lists
  \<open>file_old\<close> the handler completes without error, and the list it pushes back is
  \<open>[file_old]\<close>: the id \<open>file_new\<close> of the file it has just uploaded is missing.
\<close>

theorem upload_drops_new_file_id_example:
  "on_upload_for_code_interpreter
     (canned_client new_file (thread_with_files (Some [''file_old''])) (one_page []))
     wages_fs assistant csv_upload ((), [])
   = (Inr (), ((), [FilesCreate ''seattle_city_wages.csv'' ''department,last_name'' ''assistants'',
                    ThreadsRetrieve ''thread_1'',
                    ThreadsUpdate ''thread_1'' [''file_old'']]))
   \<and> ''file_new'' \<notin> set [''file_old'']"
  by (simp add: on_upload_for_code_interpreter_def handler_defs wages_fs_def csv_upload_def
      canned_client_def thread_with_files_def new_file_def assistant_def basename_wages)

text \<open>
  C3. The handler's docstring promises that it uploads the file and updates the thread
  with it, and the handler builds a fallback \<open>ToolResources()\<close> for a thread without tool
  resources. Yet on a thread with no tool resources, and on a thread whose tool
  resources hold only file search, as the notebook's own thread is created, the handler
  uploads the file and then stops at its assertion: the file id list is never defaulted
  and no thread update is issued.
\<close>

theorem upload_without_code_interpreter_example:
  "on_upload_for_code_interpreter
     (canned_client new_file \<lparr>tool_resources = None\<rparr> (one_page []))
     wages_fs assistant csv_upload ((), [])
   = (Inl AssertionError,
      ((), [FilesCreate ''seattle_city_wages.csv'' ''department,last_name'' ''assistants'',
            ThreadsRetrieve ''thread_1'']))
   \<and> on_upload_for_code_interpreter
     (canned_client new_file
        \<lparr>tool_resources = Some \<lparr>code_interpreter = None, file_search = Some [''vs_1'']\<rparr>\<rparr>
        (one_page []))
     wages_fs assistant csv_upload ((), [])
   = (Inl AssertionError,
      ((), [FilesCreate ''seattle_city_wages.csv'' ''department,last_name'' ''assistants'',
            ThreadsRetrieve ''thread_1'']))"
  by (simp add: on_upload_for_code_interpreter_def handler_defs wages_fs_def csv_upload_def
      canned_client_def new_file_def assistant_def basename_wages ToolResources_default_def
      one_page_def)

section \<open>handle_message\<close>

text \<open>
  C4, as amended. Whenever the TextMessage handler returns a reply, the reply's source
  is the agent's own type, whatever source the caller supplied; it therefore equals the
  source of the incoming message exactly when the caller supplied the agent's own type
  as source.
\<close>

theorem handle_message_source:
  assumes "handle_message client self message s = (Inr reply, s')"
  shows "source reply = agent_type self
         \<and> (source reply = source message \<longleftrightarrow> source message = agent_type self)"
  using handle_message_Inr [OF assms] by auto

theorem handle_message_source_witness:
  "handle_message
     (canned_client new_file (thread_with_files None) (one_page three_messages))
     assistant greeting ((), [])
   = (Inr \<lparr>content = ''Hello!'', source = ''assistant''\<rparr>,
      ((), [MessagesCreate ''thread_1'' ''Hello, how are you today!'' ''user'' ''user'',
            RunsStream ''thread_1'' ''asst_1'',
            MessagesList ''thread_1'' (Some ''desc'') (Some 1) None]))
   \<and> source \<lparr>content = ''Hello!'', source = ''assistant''\<rparr> = agent_type assistant
   \<and> source \<lparr>content = ''Hello!'', source = ''assistant''\<rparr> \<noteq> source greeting"
proof -
  have run: "handle_message
               (canned_client new_file (thread_with_files None) (one_page three_messages))
               assistant greeting ((), [])
             = (Inr \<lparr>content = ''Hello!'', source = ''assistant''\<rparr>,
                ((), [MessagesCreate ''thread_1'' ''Hello, how are you today!'' ''user'' ''user'',
                      RunsStream ''thread_1'' ''asst_1'',
                      MessagesList ''thread_1'' (Some ''desc'') (Some 1) None]))"
    by (simp add: handle_message_def handler_defs canned_client_def one_page_def
        three_messages_def assistant_def greeting_def)
  show ?thesis
    using run handle_message_source [OF run] by (simp add: greeting_def assistant_def)
qed

text \<open>
  C4 as stated fails for a caller that names itself \<open>assistant\<close>, the agent's type: the
  reply's source then equals the source of the incoming message.
\<close>

theorem handle_message_source_counterexample:
  "handle_message
     (canned_client new_file (thread_with_files None) (one_page three_messages))
     assistant self_addressed ((), [])
   = (Inr \<lparr>content = ''Hello!'', source = source self_addressed\<rparr>,
      ((), [MessagesCreate ''thread_1'' ''Hello'' ''user'' ''assistant'',
            RunsStream ''thread_1'' ''asst_1'',
            MessagesList ''thread_1'' (Some ''desc'') (Some 1) None]))"
  by (simp add: handle_message_def handler_defs canned_client_def one_page_def
      three_messages_def assistant_def self_addressed_def)

text \<open>
  C5. Once the message is saved, the run is done and the newest message \<open>m\<close> of the
  thread is fetched, the handler raises if and only if no content part of \<open>m\<close> is of
  type text; and when \<open>m\<close> has a text part, with no text part before it, the handler
  returns that part's value as content.
\<close>

theorem handle_message_text_part:
  assumes "messages_create client (thread_id self) (content message) ''user'' (source message) v
             = (Inr u1, v1)"
    and "runs_stream client (thread_id self) (assistant_id self) v1 = (Inr u2, v2)"
    and "messages_list client (thread_id self) (Some ''desc'') (Some 1) None v2 = (Inr page, v3)"
    and "data page = m # rest"
  shows "((\<exists>e. fst (handle_message client self message (v, log)) = Inl e)
            \<longleftrightarrow> (\<forall>c \<in> set (message_content m). content_type c \<noteq> ''text''))
       \<and> (\<forall>pre t post.
            message_content m = pre @ TextContentBlock t # post
              \<and> (\<forall>c \<in> set pre. content_type c \<noteq> ''text'')
            \<longrightarrow> fst (handle_message client self message (v, log))
                  = Inr \<lparr>content = t, source = agent_type self\<rparr>)"
proof -
  note run = handle_message_fetched [OF assms, of log]
  have a: "(\<exists>e. fst (handle_message client self message (v, log)) = Inl e)
            \<longleftrightarrow> (\<forall>c \<in> set (message_content m). content_type c \<noteq> ''text'')"
    unfolding run first_text_None [symmetric] by (simp split: option.splits)
  have b: "fst (handle_message client self message (v, log))
             = Inr \<lparr>content = t, source = agent_type self\<rparr>"
    if "message_content m = pre @ TextContentBlock t # post"
      and "\<forall>c \<in> set pre. content_type c \<noteq> ''text''" for pre t post
    unfolding run using first_text_append [OF that(2), of t post] that(1) by simp
  from a b show ?thesis by blast
qed

theorem handle_message_text_part_witness:
  "fst (handle_message
          (canned_client new_file (thread_with_files None) (one_page [mixed_reply]))
          assistant greeting ((), []))
     = Inr \<lparr>content = ''Here is the plot.'', source = ''assistant''\<rparr>
   \<and> (\<exists>e. fst (handle_message
                 (canned_client new_file (thread_with_files None) (one_page [image_reply]))
                 assistant greeting ((), [])) = Inl e)"
proof -
  let ?client = "\<lambda>m. canned_client new_file (thread_with_files None) (one_page [m])
                      :: unit AsyncClient"
  have create: "messages_create (?client m) (thread_id assistant) (content greeting) ''user''
                  (source greeting) () = (Inr (), ())"
    and run: "runs_stream (?client m) (thread_id assistant) (assistant_id assistant) ()
                = (Inr (), ())"
    and list: "messages_list (?client m) (thread_id assistant) (Some ''desc'') (Some 1) None ()
                 = (Inr (one_page [m]), ())"
    and page: "data (one_page [m]) = m # []" for m
    by (simp_all add: canned_client_def one_page_def)
  note mixed = handle_message_text_part [OF create run list page, of mixed_reply "[]"]
  note image = handle_message_text_part [OF create run list page, of image_reply "[]"]
  have split: "message_content mixed_reply
                 = [ImageFileContentBlock ''file_7''] @ TextContentBlock ''Here is the plot.''
                     # [TextContentBlock ''Anything else?'']
               \<and> (\<forall>c \<in> set [ImageFileContentBlock ''file_7'']. content_type c \<noteq> ''text'')"
    by (simp add: mixed_reply_def)
  have some: "fst (handle_message (?client mixed_reply) assistant greeting ((), []))
                = Inr \<lparr>content = ''Here is the plot.'', source = agent_type assistant\<rparr>"
    using mixed [THEN conjunct2] split by blast
  have "\<forall>c \<in> set (message_content image_reply). content_type c \<noteq> ''text''"
    by (simp add: image_reply_def)
  then have none: "\<exists>e. fst (handle_message (?client image_reply) assistant greeting ((), []))
                         = Inl e"
    using image [THEN conjunct1] by blast
  from some none show ?thesis by (simp add: assistant_def)
qed

section \<open>on_upload_for_file_search\<close>

text \<open>
  C7. Take any client whose upload-and-poll call keeps the vendor's contract: when it
  returns a result, every file it was given is in the named vector store with indexing
  completed. Then whenever the file-search upload handler returns normally, the local
  file was read, the upload-and-poll call on the message's vector store was made with
  it and has returned, that call is the last entry of the log, and in the remote state
  at the return the file's indexing is completed: the handler never returns normally
  while indexing is in progress, nor without the upload.
\<close>

theorem on_upload_for_file_search_after_poll:
  assumes "\<And>vs files v v'.
             upload_and_poll client vs files v = (Inr (), v')
             \<Longrightarrow> \<forall>f \<in> set files. status v' vs f = Some completed"
    and "on_upload_for_file_search client fs self message (v, log) = (Inr u, (v', log'))"
  shows "\<exists>c. fs (file_path message) = Some c
           \<and> upload_and_poll client (vector_store_id message)
                 [(basename (file_path message), c)] v = (Inr (), v')
           \<and> log' = log @ [UploadAndPoll (vector_store_id message)
                              [(basename (file_path message), c)]]
           \<and> status v' (vector_store_id message) (basename (file_path message), c)
               = Some completed"
proof -
  obtain c where c: "fs (file_path message) = Some c"
    using assms(2)
    by (cases "fs (file_path message)") (auto simp: on_upload_for_file_search_def handler_defs)
  have call: "upload_and_poll client (vector_store_id message)
                [(basename (file_path message), c)] v = (Inr (), v')"
    and log': "log' = log @ [UploadAndPoll (vector_store_id message)
                               [(basename (file_path message), c)]]"
    using assms(2) unfolding on_upload_for_file_search_run [of fs message c, OF c]
    by (auto split: prod.splits)
  from assms(1) [OF call] have "status v' (vector_store_id message)
      (basename (file_path message), c) = Some completed"
    by simp
  with c call log' show ?thesis by blast
qed

theorem on_upload_for_file_search_after_poll_witness:
  "on_upload_for_file_search (indexing_client 3) html_fs assistant html_upload ([], [])
     = (Inr (),
        ([(''vs_1'', (''third_anglo_afghan_war.html'', ''<html></html>''), 0)],
         [UploadAndPoll ''vs_1'' [(''third_anglo_afghan_war.html'', ''<html></html>'')]]))
   \<and> indexing_status [(''vs_1'', (''third_anglo_afghan_war.html'', ''<html></html>''), 0)]
         ''vs_1'' (''third_anglo_afghan_war.html'', ''<html></html>'') = Some completed"
proof -
  have b: "basename ''docs/third_anglo_afghan_war.html'' = ''third_anglo_afghan_war.html''"
    by (simp add: basename_def)
  have f: "html_fs (file_path html_upload) = Some ''<html></html>''"
    by (simp add: html_fs_def html_upload_def)
  have contract: "\<And>vs files v v'.
      upload_and_poll (indexing_client 3) vs files v = (Inr (), v')
      \<Longrightarrow> \<forall>f \<in> set files. indexing_status v' vs f = Some completed"
    using indexing_upload_and_poll_completed [of 3]
    by (simp add: indexing_client_def)
  have run: "on_upload_for_file_search (indexing_client 3) html_fs assistant html_upload ([], [])
     = (Inr (),
        ([(''vs_1'', (''third_anglo_afghan_war.html'', ''<html></html>''), 0)],
         [UploadAndPoll ''vs_1'' [(''third_anglo_afghan_war.html'', ''<html></html>'')]]))"
  proof -
    have poll: "poll_until_done ''vs_1''
                  [(''vs_1'', (''third_anglo_afghan_war.html'', ''<html></html>''), 3)]
                = [(''vs_1'', (''third_anglo_afghan_war.html'', ''<html></html>''), 0)]"
      by code_simp
    have call: "upload_and_poll (indexing_client 3) (vector_store_id html_upload)
                  [(basename (file_path html_upload), ''<html></html>'')] []
                = (Inr (), [(''vs_1'', (''third_anglo_afghan_war.html'', ''<html></html>''), 0)])"
      by (simp add: indexing_client_def indexing_upload_and_poll_def upload_batch_def
          html_upload_def b poll)
    show ?thesis
      unfolding on_upload_for_file_search_run [of html_fs html_upload "''<html></html>''", OF f] call
      by (simp add: html_upload_def b)
  qed
  from on_upload_for_file_search_after_poll
      [where client = "indexing_client 3" and status = indexing_status, OF contract run]
  have "indexing_status [(''vs_1'', (''third_anglo_afghan_war.html'', ''<html></html>''), 0)]
          ''vs_1'' (''third_anglo_afghan_war.html'', ''<html></html>'') = Some completed"
    by (simp add: html_upload_def b)
  with run show ?thesis by blast
qed

section \<open>What the upload handlers send\<close>

text \<open>
  C10. When the local file can be read, each upload handler makes its upload call on
  the client with the basename of the message's \<open>file_path\<close> as the name and the whole
  content of the file at that path as the content: the file-search handler ends with
  what \<open>upload_and_poll\<close> gives for that pair, and the code-interpreter handler with
  what \<open>files_create\<close> gives for it and the retrieve and update that follow. That pair
  is the only one uploaded. The basename is the path with its directory part, the
  longest prefix ending in a slash, stripped.
\<close>

theorem upload_name_and_content:
  assumes "fs (UploadForCodeInterpreter.file_path message) = Some c"
    and "fs (file_path message') = Some c'"
  shows "on_upload_for_file_search client fs self message' (v, log) =
           (case upload_and_poll client (vector_store_id message')
                   [(basename (file_path message'), c')] v of
              (r, v') \<Rightarrow>
                (r, (v', log @ [UploadAndPoll (vector_store_id message')
                                  [(basename (file_path message'), c')]])))
   \<and> on_upload_for_code_interpreter client fs self message (v, log) =
     (case files_create client (basename (UploadForCodeInterpreter.file_path message)) c
             ''assistants'' v of
        (Inl e, v1) \<Rightarrow>
          (Inl e, (v1, log @ [FilesCreate (basename (UploadForCodeInterpreter.file_path message))
                                c ''assistants'']))
      | (Inr file, v1) \<Rightarrow>
          (case threads_retrieve client (thread_id self) v1 of
             (Inl e, v2) \<Rightarrow>
               (Inl e, (v2, log @ [FilesCreate
                                     (basename (UploadForCodeInterpreter.file_path message))
                                     c ''assistants'',
                                   ThreadsRetrieve (thread_id self)]))
           | (Inr thread, v2) \<Rightarrow>
               (case code_interpreter
                       (case tool_resources thread of
                          Some tr \<Rightarrow> tr
                        | None \<Rightarrow> ToolResources_default) of
                  None \<Rightarrow>
                    (Inl AssertionError,
                     (v2, log @ [FilesCreate
                                   (basename (UploadForCodeInterpreter.file_path message))
                                   c ''assistants'',
                                 ThreadsRetrieve (thread_id self)]))
                | Some ci \<Rightarrow>
                    (case threads_update client (thread_id self)
                            (case file_ids ci of
                               Some (x # xs) \<Rightarrow> x # xs
                             | _ \<Rightarrow> [file_id file]) v2 of
                       (r, v3) \<Rightarrow>
                         (r, (v3, log @ [FilesCreate
                                   (basename (UploadForCodeInterpreter.file_path message))
                                   c ''assistants'',
                                 ThreadsRetrieve (thread_id self),
                                 ThreadsUpdate (thread_id self)
                                   (case file_ids ci of
                                      Some (x # xs) \<Rightarrow> x # xs
                                    | _ \<Rightarrow> [file_id file])]))))))
   \<and> uploads (snd (snd (on_upload_for_code_interpreter client fs self message (v, []))))
       = [(basename (UploadForCodeInterpreter.file_path message), c)]
   \<and> uploads (snd (snd (on_upload_for_file_search client fs self message' (v, []))))
       = [(basename (file_path message'), c')]
   \<and> (\<exists>dir. p = dir @ basename p \<and> CHR ''/'' \<notin> set (basename p)
          \<and> (dir = [] \<or> last dir = CHR ''/''))"
proof -
  note ci = on_upload_for_code_interpreter_run [of fs message c, OF assms(1)]
  note fsr = on_upload_for_file_search_run [of fs message' c', OF assms(2)]
  have u1: "uploads (snd (snd (on_upload_for_code_interpreter client fs self message (v, []))))
       = [(basename (UploadForCodeInterpreter.file_path message), c)]"
    unfolding ci by (simp split: prod.splits sum.splits option.splits list.splits)
  have u2: "uploads (snd (snd (on_upload_for_file_search client fs self message' (v, []))))
       = [(basename (file_path message'), c')]"
    unfolding fsr by (simp split: prod.splits)
  show ?thesis
    using ci [of client self v log] fsr [of client self v log] u1 u2 basename_split [of p]
    by (intro conjI)
qed

theorem upload_name_and_content_witness:
  "on_upload_for_code_interpreter store_client wages_fs assistant csv_upload (empty_store, [])
     = (Inr (),
        (\<lparr>stored_files = [(''file_seattle_city_wages.csv'', ''seattle_city_wages.csv'',
                            ''department,last_name'')],
          thread_resources =
            tool_resources (thread_with_files (Some [''file_seattle_city_wages.csv'']))\<rparr>,
         [FilesCreate ''seattle_city_wages.csv'' ''department,last_name'' ''assistants'',
          ThreadsRetrieve ''thread_1'',
          ThreadsUpdate ''thread_1'' [''file_seattle_city_wages.csv'']]))
   \<and> on_upload_for_file_search (indexing_client 0) html_fs assistant html_upload ([], [])
     = (Inr (),
        ([(''vs_1'', (''third_anglo_afghan_war.html'', ''<html></html>''), 0)],
         [UploadAndPoll ''vs_1'' [(''third_anglo_afghan_war.html'', ''<html></html>'')]]))"
proof -
  have b: "basename ''docs/third_anglo_afghan_war.html'' = ''third_anglo_afghan_war.html''"
    by (simp add: basename_def)
  have w: "wages_fs (UploadForCodeInterpreter.file_path csv_upload) = Some ''department,last_name''"
    and h: "html_fs (file_path html_upload) = Some ''<html></html>''"
    and w': "wages_fs (file_path \<lparr>file_path = ''data/seattle_city_wages.csv'', vector_store_id = ''vs_1''\<rparr>)
               = Some ''department,last_name''"
    and h': "html_fs (UploadForCodeInterpreter.file_path
               \<lparr>UploadForCodeInterpreter.file_path = ''docs/third_anglo_afghan_war.html''\<rparr>)
               = Some ''<html></html>''"
    by (simp_all add: wages_fs_def csv_upload_def html_fs_def html_upload_def)
  have poll: "poll_until_done ''vs_1''
                [(''vs_1'', (''third_anglo_afghan_war.html'', ''<html></html>''), 0)]
              = [(''vs_1'', (''third_anglo_afghan_war.html'', ''<html></html>''), 0)]"
    by code_simp
  have 1: "on_upload_for_code_interpreter store_client wages_fs assistant csv_upload (empty_store, [])
     = (Inr (),
        (\<lparr>stored_files = [(''file_seattle_city_wages.csv'', ''seattle_city_wages.csv'',
                            ''department,last_name'')],
          thread_resources =
            tool_resources (thread_with_files (Some [''file_seattle_city_wages.csv'']))\<rparr>,
         [FilesCreate ''seattle_city_wages.csv'' ''department,last_name'' ''assistants'',
          ThreadsRetrieve ''thread_1'',
          ThreadsUpdate ''thread_1'' [''file_seattle_city_wages.csv'']]))"
    using upload_name_and_content
      [where fs = wages_fs and message = csv_upload and client = store_client
         and self = assistant and v = empty_store and log = "[]", OF w w',
       THEN conjunct2, THEN conjunct1]
    by (simp add: store_client_def store_files_create_def store_threads_retrieve_def
        store_threads_update_def empty_store_def thread_with_files_def csv_upload_def
        basename_wages assistant_def)
  have 2: "on_upload_for_file_search (indexing_client 0) html_fs assistant html_upload ([], [])
     = (Inr (),
        ([(''vs_1'', (''third_anglo_afghan_war.html'', ''<html></html>''), 0)],
         [UploadAndPoll ''vs_1'' [(''third_anglo_afghan_war.html'', ''<html></html>'')]]))"
    using upload_name_and_content
      [where fs = html_fs and message' = html_upload and client = "indexing_client 0"
         and self = assistant and v = "[]" and log = "[]", OF h' h, THEN conjunct1]
    by (simp add: indexing_client_def indexing_upload_and_poll_def upload_batch_def
        html_upload_def b poll)
  from 1 2 show ?thesis by blast
qed

section \<open>Cancellation\<close>



end
